theory Spec2Isabelle
  imports Complex_Main "HOL-Library.AList" "HOL-Library.Log_Nat"
begin

section \<open>Password-reset token lifecycle: issuance and redemption\<close>

text \<open>
  The two HTTP handlers \<open>requestpasswordreset\<close> and \<open>resetpassword\<close> of the function app are
  embedded as state-passing functions over the two Azure tables they use (\<open>prospects\<close>,
  \<open>resetrequests\<close>), the mails handed to the mail service, and a log of every remote call
  attempted. Conventions of the embedding:
  \<^item> a JavaScript string is a \<open>string\<close>, each \<open>char\<close> standing for the UTF-16 code unit of
    the same value (U+0000 to U+00FF); strings with other code units are not modelled;
  \<^item> a JavaScript number is the real it denotes, and arithmetic on numbers rounds to the
    nearest IEEE double;
  \<^item> the body of a request is \<open>None\<close> when \<open>req.json()\<close> or the destructuring of its result
    throws, and otherwise gives each field as \<open>Some\<close> string, or \<open>None\<close> when the field is
    missing or \<open>null\<close>; fields that hold another kind of JSON value are not modelled;
  \<^item> a timestamp is an \<open>int\<close>, the milliseconds since the epoch (\<open>Date.getTime()\<close>); the ISO
    strings stored in the table denote exactly these values;
  \<^item> a table is an association list from the row key to the entity, in table order; the
    partition key of \<open>resetrequests\<close> is always \<open>'reset'\<close>, that of \<open>prospects\<close> equals the row key;
  \<^item> every remote call may throw. Whether it does is an input of the model (one flag per call
    site), and a call that throws leaves the tables as they were; the etag of an entity is a
    counter of the writes to it;
  \<^item> a call of a method that the client object does not have throws a \<open>TypeError\<close> and is no
    remote call;
  \<^item> \<open>Math.random()\<close>, the clock and \<open>bcrypt.hash\<close> are inputs of the model as well;
  \<^item> the handlers are modelled from the point after the CORS preflight test, that is for
    \<open>POST\<close> requests; the constant CORS headers of every response are left out.
\<close>

subsection \<open>Strings and the validation helpers\<close>

definition isSpace :: "char \<Rightarrow> bool" where
  \<comment> \<open>the class \<open>\s\<close>, which is also what \<open>trim\<close> strips: TAB, LF, VT, FF, CR, SPACE and the
      no-break space U+00A0\<close>
  "isSpace c = (let n = (of_char c :: nat) in (9 \<le> n \<and> n \<le> 13) \<or> n = 32 \<or> n = 160)"

definition isLineTerminator :: "char \<Rightarrow> bool" where
  \<comment> \<open>the characters the regex dot does not match: LF and CR\<close>
  "isLineTerminator c = (let n = (of_char c :: nat) in n = 10 \<or> n = 13)"

definition isDigit :: "char \<Rightarrow> bool" where
  \<comment> \<open>the class \<open>\d\<close>\<close>
  "isDigit c = (let n = (of_char c :: nat) in 48 \<le> n \<and> n \<le> 57)"

definition isUpper :: "char \<Rightarrow> bool" where
  \<comment> \<open>the class \<open>[A-Z]\<close>\<close>
  "isUpper c = (let n = (of_char c :: nat) in 65 \<le> n \<and> n \<le> 90)"

definition isLower :: "char \<Rightarrow> bool" where
  \<comment> \<open>the class \<open>[a-z]\<close>\<close>
  "isLower c = (let n = (of_char c :: nat) in 97 \<le> n \<and> n \<le> 122)"

definition trim :: "string \<Rightarrow> string" where
  "trim s = rev (dropWhile isSpace (rev (dropWhile isSpace s)))"

definition hasLowerCase :: "char \<Rightarrow> bool" where
  \<comment> \<open>the code units that \<open>toLowerCase\<close> changes: A to Z, and U+00C0 to U+00DE without the
      multiplication sign U+00D7; each is mapped 32 places up\<close>
  "hasLowerCase c =
     (let n = (of_char c :: nat)
      in (65 \<le> n \<and> n \<le> 90) \<or> (192 \<le> n \<and> n \<le> 214) \<or> (216 \<le> n \<and> n \<le> 222))"

definition toLowerCase :: "string \<Rightarrow> string" where
  "toLowerCase s = map (\<lambda>c. if hasLowerCase c then char_of (of_char c + (32::nat)) else c) s"

text \<open>
  A field of the parsed request body is \<open>Some\<close> string, or \<open>None\<close> when the field is missing
  or \<open>null\<close>. \<open>String(s || '')\<close> turns \<open>None\<close> and the empty string into the empty string.
\<close>

definition normalizeStr :: "string option \<Rightarrow> string" where
  "normalizeStr s = toLowerCase (trim (case s of None \<Rightarrow> [] | Some x \<Rightarrow> x))"

text \<open>Regular expressions without look-ahead, matched against the whole string by derivatives.\<close>

datatype regex =
    NoMatch
  | Eps
  | Class "char \<Rightarrow> bool"
  | Cat regex regex
  | Alt regex regex
  | Rep regex

fun nullable :: "regex \<Rightarrow> bool" where
  "nullable NoMatch = False"
| "nullable Eps = True"
| "nullable (Class P) = False"
| "nullable (Cat r s) = (nullable r \<and> nullable s)"
| "nullable (Alt r s) = (nullable r \<or> nullable s)"
| "nullable (Rep r) = True"

fun deriv :: "char \<Rightarrow> regex \<Rightarrow> regex" where
  "deriv c NoMatch = NoMatch"
| "deriv c Eps = NoMatch"
| "deriv c (Class P) = (if P c then Eps else NoMatch)"
| "deriv c (Cat r s) =
     (if nullable r then Alt (Cat (deriv c r) s) (deriv c s) else Cat (deriv c r) s)"
| "deriv c (Alt r s) = Alt (deriv c r) (deriv c s)"
| "deriv c (Rep r) = Cat (deriv c r) (Rep r)"

fun matches :: "regex \<Rightarrow> string \<Rightarrow> bool" where
  "matches r [] = nullable r"
| "matches r (c # cs) = matches (deriv c r) cs"

definition oneOrMore :: "regex \<Rightarrow> regex" where
  "oneOrMore r = Cat r (Rep r)"

definition notSpaceNorAt :: "char \<Rightarrow> bool" where
  \<comment> \<open>the class \<open>[^\s@]\<close>\<close>
  "notSpaceNorAt c = (\<not> isSpace c \<and> c \<noteq> CHR ''@'')"

definition emailRegex :: regex where
  \<comment> \<open>\<open>/^[^\s@]+@[^\s@]+\.[^\s@]+$/\<close>\<close>
  "emailRegex =
     Cat (oneOrMore (Class notSpaceNorAt))
    (Cat (Class (\<lambda>c. c = CHR ''@''))
    (Cat (oneOrMore (Class notSpaceNorAt))
    (Cat (Class (\<lambda>c. c = CHR ''.''))
         (oneOrMore (Class notSpaceNorAt)))))"

definition isValidEmail :: "string \<Rightarrow> bool" where
  "isValidEmail e = matches emailRegex (normalizeStr (Some e))"

definition sixDigits :: "string \<Rightarrow> bool" where
  \<comment> \<open>\<open>/^\d{6}$/\<close>\<close>
  "sixDigits s = (length s = 6 \<and> list_all isDigit s)"

definition htmlChars :: "char list" where
  \<comment> \<open>the class \<open>[<>&"']\<close>\<close>
  "htmlChars = [CHR ''<'', CHR ''>'', CHR ''&'', CHR 0x22, CHR 0x27]"

definition ahead :: "(char \<Rightarrow> bool) \<Rightarrow> string \<Rightarrow> bool" where
  \<comment> \<open>the look-ahead \<open>(?=.*[cls])\<close> at the start of \<open>s\<close>: a character of the class before the
      first line terminator\<close>
  "ahead cls s = list_ex cls (takeWhile (\<lambda>c. \<not> isLineTerminator c) s)"

definition hasLowerUpperDigit :: "string \<Rightarrow> bool" where
  \<comment> \<open>\<open>/(?=.*[a-z])(?=.*[A-Z])(?=.*\d)/\<close>, unanchored: the three look-aheads hold at one position\<close>
  "hasLowerUpperDigit s =
     list_ex (\<lambda>i. ahead isLower (drop i s) \<and> ahead isUpper (drop i s) \<and> ahead isDigit (drop i s))
       [0 ..< Suc (length s)]"

definition isValidPassword :: "string option \<Rightarrow> bool" where
  "isValidPassword password =
     (case password of
        None \<Rightarrow> False
      | Some p \<Rightarrow>
          if p = [] then False
          else if length p < 8 \<or> length p > 128 then False
          else if list_ex (\<lambda>c. c \<in> set htmlChars) p then False
          else if \<not> hasLowerUpperDigit p then False
          else True)"

text \<open>\<open>Number.prototype.toString()\<close> on a non-negative integer: its decimal digits.\<close>

fun toString :: "nat \<Rightarrow> string" where
  "toString n =
     (if n < 10 then [char_of (48 + n)]
      else toString (n div 10) @ [char_of (48 + n mod 10)])"

declare toString.simps [simp del]

subsection \<open>Doubles\<close>

text \<open>
  The result of an arithmetic operation on numbers is the exact result rounded to the nearest
  double, ties to the even significand. A double has 53 significant bits, so around a positive
  \<open>x\<close> with \<open>2 ^ e \<le> x < 2 ^ (e + 1)\<close> the doubles are the multiples of \<open>2 ^ (e - 52)\<close>, and
  the multiples of \<open>2 ^ (- 1074)\<close> below the smallest normal number. Overflow does not occur
  in the range of the program's numbers and is not modelled.
\<close>

definition expo :: "real \<Rightarrow> int" where
  \<comment> \<open>the binary exponent \<open>e\<close> of a positive number\<close>
  "expo x = (if 1 \<le> x then bitlen \<lfloor>x\<rfloor> - 1 else - bitlen (\<lceil>1 / x\<rceil> - 1))"

definition ulp :: "real \<Rightarrow> real" where
  \<comment> \<open>the distance between the doubles around \<open>x\<close>\<close>
  "ulp x = 2 powi (max (expo \<bar>x\<bar>) (- 1022) - 52)"

definition roundHalfEven :: "real \<Rightarrow> int" where
  "roundHalfEven y =
     (let f = \<lfloor>y\<rfloor>; d = y - of_int f
      in if d < 1 / 2 then f else if 1 / 2 < d then f + 1 else if even f then f else f + 1)"

definition roundDouble :: "real \<Rightarrow> real" where
  "roundDouble x = (if x = 0 then 0 else of_int (roundHalfEven (x / ulp x)) * ulp x)"

definition isDouble :: "real \<Rightarrow> bool" where
  "isDouble x = (roundDouble x = x)"

definition isRandom :: "real \<Rightarrow> bool" where
  \<comment> \<open>what \<open>Math.random()\<close> can return: a double, at least 0 and less than 1\<close>
  "isRandom r = (isDouble r \<and> 0 \<le> r \<and> r < 1)"

subsection \<open>Entities, tables and the remote calls\<close>

record user =
  u_email :: string
  u_therapistId :: string
  u_hashedPassword :: string
  u_etag :: nat

record token =
  t_therapistId :: string
  t_email :: string
  t_createdAt :: int
  t_expiresAt :: int
  t_used :: bool
  t_etag :: nat

record mail =
  m_to :: string
  m_code :: string

datatype call =
    GetUser string
  | BatchDelete "string list"
  | UpsertToken string
  | SendMail string
  | GetToken string
  | DeleteToken string
  | UpdateToken string
  | UpdateUser string

record world =
  prospects :: "(string \<times> user) list"
  resetrequests :: "(string \<times> token) list"
  outbox :: "mail list"
  calls :: "call list"

datatype thrown = TypeError | NotFound | PreconditionFailed | Unavailable

text \<open>
  The \<open>If-Match\<close> condition of \<open>updateEntity\<close>: the wild card \<open>'*'\<close> matches every version of
  the entity, an etag only the version it names.
\<close>

datatype if_match = AnyVersion | Version nat

definition etagMatches :: "if_match \<Rightarrow> nat \<Rightarrow> bool" where
  "etagMatches m v = (case m of AnyVersion \<Rightarrow> True | Version n \<Rightarrow> n = v)"

definition logCall :: "call \<Rightarrow> world \<Rightarrow> world" where
  "logCall c w = w\<lparr>calls := calls w @ [c]\<rparr>"

text \<open>
  Each remote call takes the flag that says whether it throws for a reason of its own (a
  timeout, an unavailable service), and returns the logged world with the error or the result.
\<close>

definition getUser :: "bool \<Rightarrow> string \<Rightarrow> world \<Rightarrow> (thrown + user) \<times> world" where
  \<comment> \<open>\<open>prospectsTable.getEntity(key, key)\<close>\<close>
  "getUser throws key w =
     (if throws then Inl Unavailable
      else case map_of (prospects w) key of None \<Rightarrow> Inl NotFound | Some u \<Rightarrow> Inr u,
      logCall (GetUser key) w)"

text \<open>
  \<open>TableClient\<close> of \<open>@azure/data-tables\<close> enumerates a table with \<open>listEntities\<close>; it has no
  method \<open>queryEntities\<close>. The expression \<open>table.queryEntities({ filter })\<close> of the two
  handlers therefore throws a \<open>TypeError\<close> for every table and every filter, before any
  request is made.
\<close>

definition queryEntities :: "(string \<times> 'a) list \<Rightarrow> ('a \<Rightarrow> bool) \<Rightarrow> thrown + (string \<times> 'a) list" where
  "queryEntities table flt = Inl TypeError"

definition submitDeletes :: "bool \<Rightarrow> string list \<Rightarrow> world \<Rightarrow> (thrown + unit) \<times> world" where
  \<comment> \<open>\<open>resetRequestsTable.submitTransaction\<close> of delete actions: all of them or none (the
      service also refuses a batch it finds too large: that is the call throwing)\<close>
  "submitDeletes throws keys w =
     (if throws then (Inl Unavailable, logCall (BatchDelete keys) w)
      else (Inr (),
            logCall (BatchDelete keys)
              (w\<lparr>resetrequests := filter (\<lambda>(k, t). k \<notin> set keys) (resetrequests w)\<rparr>)))"

definition upsertToken :: "bool \<Rightarrow> string \<Rightarrow> token \<Rightarrow> world \<Rightarrow> (thrown + unit) \<times> world" where
  \<comment> \<open>\<open>resetRequestsTable.upsertEntity(record, 'Merge')\<close>: the record carries every property,
      so merging into an entity that is already there replaces each of them\<close>
  "upsertToken throws key t w =
     (if throws then (Inl Unavailable, logCall (UpsertToken key) w)
      else (Inr (),
            logCall (UpsertToken key)
              (w\<lparr>resetrequests :=
                   AList.update key
                     (t\<lparr>t_etag := (case map_of (resetrequests w) key of
                                     None \<Rightarrow> 0 | Some old \<Rightarrow> Suc (t_etag old))\<rparr>)
                     (resetrequests w)\<rparr>)))"

definition sendMail :: "bool \<Rightarrow> string \<Rightarrow> string \<Rightarrow> world \<Rightarrow> (thrown + unit) \<times> world" where
  \<comment> \<open>\<open>emailClient.beginSend\<close> and \<open>pollUntilDone\<close>; the mail is its recipient and the code, the
      text around them is fixed\<close>
  "sendMail throws addr c w =
     (if throws then (Inl Unavailable, logCall (SendMail addr) w)
      else (Inr (), logCall (SendMail addr) (w\<lparr>outbox := outbox w @ [\<lparr>m_to = addr, m_code = c\<rparr>]\<rparr>)))"

definition getToken :: "bool \<Rightarrow> string \<Rightarrow> world \<Rightarrow> (thrown + token) \<times> world" where
  \<comment> \<open>\<open>resetRequestsTable.getEntity('reset', code)\<close>\<close>
  "getToken throws key w =
     (if throws then Inl Unavailable
      else case map_of (resetrequests w) key of None \<Rightarrow> Inl NotFound | Some t \<Rightarrow> Inr t,
      logCall (GetToken key) w)"

definition deleteToken :: "bool \<Rightarrow> string \<Rightarrow> world \<Rightarrow> (thrown + unit) \<times> world" where
  \<comment> \<open>\<open>resetRequestsTable.deleteEntity('reset', code)\<close>\<close>
  "deleteToken throws key w =
     (if throws then (Inl Unavailable, logCall (DeleteToken key) w)
      else case map_of (resetrequests w) key of
             None \<Rightarrow> (Inl NotFound, logCall (DeleteToken key) w)
           | Some t \<Rightarrow>
               (Inr (), logCall (DeleteToken key)
                          (w\<lparr>resetrequests := AList.delete key (resetrequests w)\<rparr>)))"

definition updateTokenUsed ::
  "bool \<Rightarrow> if_match \<Rightarrow> string \<Rightarrow> world \<Rightarrow> (thrown + unit) \<times> world" where
  \<comment> \<open>\<open>resetRequestsTable.updateEntity({..., used: true}, 'Merge')\<close> under an \<open>If-Match\<close> condition\<close>
  "updateTokenUsed throws m key w =
     (if throws then (Inl Unavailable, logCall (UpdateToken key) w)
      else case map_of (resetrequests w) key of
             None \<Rightarrow> (Inl NotFound, logCall (UpdateToken key) w)
           | Some t \<Rightarrow>
               if etagMatches m (t_etag t)
               then (Inr (), logCall (UpdateToken key)
                       (w\<lparr>resetrequests :=
                            AList.update key (t\<lparr>t_used := True, t_etag := Suc (t_etag t)\<rparr>)
                              (resetrequests w)\<rparr>))
               else (Inl PreconditionFailed, logCall (UpdateToken key) w))"

definition updateUserPassword ::
  "bool \<Rightarrow> if_match \<Rightarrow> string \<Rightarrow> string \<Rightarrow> world \<Rightarrow> (thrown + unit) \<times> world" where
  \<comment> \<open>\<open>prospectsTable.updateEntity({..., hashedPassword}, 'Merge')\<close> under an \<open>If-Match\<close> condition\<close>
  "updateUserPassword throws m key h w =
     (if throws then (Inl Unavailable, logCall (UpdateUser key) w)
      else case map_of (prospects w) key of
             None \<Rightarrow> (Inl NotFound, logCall (UpdateUser key) w)
           | Some u \<Rightarrow>
               if etagMatches m (u_etag u)
               then (Inr (), logCall (UpdateUser key)
                       (w\<lparr>prospects :=
                            AList.update key (u\<lparr>u_hashedPassword := h, u_etag := Suc (u_etag u)\<rparr>)
                              (prospects w)\<rparr>))
               else (Inl PreconditionFailed, logCall (UpdateUser key) w))"

subsection \<open>Responses\<close>

record response =
  status :: nat
  success :: bool
  message :: string
  redirectTo :: "string option"

definition reply :: "nat \<Rightarrow> bool \<Rightarrow> string \<Rightarrow> response" where
  "reply st ok msg = \<lparr>status = st, success = ok, message = msg, redirectTo = None\<rparr>"

definition accountNotFoundRedirect :: response where
  "accountNotFoundRedirect =
     \<lparr>status = 200, success = False, message = ''Account not found.'',
      redirectTo = Some ''/subscribe''\<rparr>"

definition rateLimited :: response where
  "rateLimited =
     reply 429 False ''Too many recent reset requests. Please wait before trying again.''"

definition resetSent :: response where
  "resetSent =
     reply 200 True ''If your account exists, a reset link has been sent to your email.''"

subsection \<open>Issuance: \<open>requestpasswordreset\<close>\<close>

record issue_env =
  i_now :: int
  i_random :: real
  userLookupThrows :: bool
  batchDeleteThrows :: bool
  upsertThrows :: bool
  sendThrows :: bool

record issue_body =
  ib_email :: "string option"

definition isActive :: "int \<Rightarrow> token \<Rightarrow> bool" where
  \<comment> \<open>\<open>!ent.used && exp > now\<close>\<close>
  "isActive now t = (\<not> t_used t \<and> t_expiresAt t > now)"

definition cleanupAndLimit :: "issue_env \<Rightarrow> string \<Rightarrow> world \<Rightarrow> bool \<times> world" where
  \<comment> \<open>the \<open>try\<close> block that deletes stale tokens and enforces the limit; \<open>True\<close> when it returns
      the 429 response, \<open>False\<close> when it falls through or its \<open>catch\<close> swallows an exception\<close>
  "cleanupAndLimit e tid w =
     (case queryEntities (resetrequests w) (\<lambda>t. t_therapistId t = tid) of
        Inl err \<Rightarrow> (False, w)
      | Inr owned \<Rightarrow>
          (let active = filter (\<lambda>(k, t). isActive (i_now e) t) owned;
               batchDeletes = map fst (filter (\<lambda>(k, t). \<not> isActive (i_now e) t) owned)
           in if batchDeletes \<noteq> [] then
                (case submitDeletes (batchDeleteThrows e) batchDeletes w of
                   (Inl err, w2) \<Rightarrow> (False, w2)
                 | (Inr u, w2) \<Rightarrow> (2 \<le> length active, w2))
              else (2 \<le> length active, w)))"

definition newCode :: "real \<Rightarrow> string" where
  \<comment> \<open>\<open>Math.floor(100000 + Math.random() * 900000).toString()\<close>: the product and the sum are
      rounded to doubles\<close>
  "newCode r = toString (nat \<lfloor>roundDouble (100000 + roundDouble (r * 900000))\<rfloor>)"

definition newRecord :: "issue_env \<Rightarrow> string \<Rightarrow> string \<Rightarrow> token" where
  "newRecord e tid email =
     \<lparr>t_therapistId = tid, t_email = email, t_createdAt = i_now e,
      t_expiresAt = i_now e + 15 * 60000, t_used = False, t_etag = 0\<rparr>"

definition requestpasswordreset ::
  "issue_env \<Rightarrow> issue_body option \<Rightarrow> world \<Rightarrow> response \<times> world" where
  "requestpasswordreset e req w =
     (case req of
        None \<Rightarrow> (reply 400 False ''Invalid request format.'', w)
      | Some body \<Rightarrow>
          (let email = normalizeStr (ib_email body) in
           if \<not> isValidEmail email then (reply 400 False ''A valid email is required.'', w)
           else
             (case getUser (userLookupThrows e) email w of
                (Inl err, w1) \<Rightarrow> (accountNotFoundRedirect, w1)
              | (Inr user, w1) \<Rightarrow>
                  (let therapistId = u_therapistId user in
                   case cleanupAndLimit e therapistId w1 of
                     (True, w2) \<Rightarrow> (rateLimited, w2)
                   | (False, w2) \<Rightarrow>
                       (let code = newCode (i_random e) in
                        case upsertToken (upsertThrows e) code
                               (newRecord e therapistId email) w2 of
                          (Inl err, w3) \<Rightarrow>
                            (reply 500 False ''Could not generate reset token.'', w3)
                        | (Inr u, w3) \<Rightarrow>
                            (resetSent, snd (sendMail (sendThrows e) email code w3)))))))"

subsection \<open>Redemption: \<open>resetpassword\<close>\<close>

record redeem_env =
  r_now :: int
  bcryptHash :: "string \<Rightarrow> string"
  tokenGetThrows :: bool
  tokenDeleteThrows :: bool
  markUsedThrows :: bool
  passwordUpdateThrows :: bool

record redeem_body =
  rb_email :: "string option"
  rb_code :: "string option"
  rb_newPassword :: "string option"

text \<open>
  The handler up to the test of expiry and use: it answers, or goes on with the normalized
  email, the code, the new password and the token record it has read. Where the new password
  is taken out of its option, \<open>isValidPassword\<close> has already refused \<open>None\<close>.
\<close>

definition validateAndFetch ::
  "redeem_env \<Rightarrow> redeem_body option \<Rightarrow> world \<Rightarrow>
     (response + string \<times> string \<times> string \<times> token) \<times> world" where
  "validateAndFetch e req w =
     (case req of
        None \<Rightarrow> (Inl (reply 400 False ''Invalid request format.''), w)
      | Some body \<Rightarrow>
          (let email = normalizeStr (rb_email body) in
           if email = [] \<or> \<not> isValidEmail email
           then (Inl (reply 400 False ''Valid email is required.''), w)
           else
             (case rb_code body of
                None \<Rightarrow> (Inl (reply 400 False ''Valid 6-digit code is required.''), w)
              | Some code \<Rightarrow>
                  if code = [] \<or> \<not> sixDigits code
                  then (Inl (reply 400 False ''Valid 6-digit code is required.''), w)
                  else if \<not> isValidPassword (rb_newPassword body)
                  then (Inl (reply 400 False
                    ''Password must be 8-128 characters with at least one uppercase letter, one lowercase letter, and one digit. HTML characters are not allowed.''), w)
                  else
                    (case getToken (tokenGetThrows e) code w of
                       (Inl err, w1) \<Rightarrow> (Inl (reply 400 False ''Invalid or expired code.''), w1)
                     | (Inr codeRec, w1) \<Rightarrow>
                         if normalizeStr (Some (t_email codeRec)) \<noteq> email
                         then (Inl (reply 400 False ''Invalid code or email.''), w1)
                         else if t_expiresAt codeRec \<le> r_now e \<or> t_used codeRec
                         then (Inl (reply 400 False ''Code has expired or already been used.''),
                               snd (deleteToken (tokenDeleteThrows e) code w1))
                         else (Inr (email, code, the (rb_newPassword body), codeRec), w1)))))"

text \<open>
  The rest of the handler: mark the code used, find the user, write the new hash. Both updates
  are sent with the etag \<open>'*'\<close>. The flag \<open>passwordUpdateThrows\<close> stands for \<open>bcrypt.hash\<close> or
  the update throwing: the two share one \<open>try\<close> block.
\<close>

definition markAndCommit ::
  "redeem_env \<Rightarrow> string \<times> string \<times> string \<times> token \<Rightarrow> world \<Rightarrow> response \<times> world" where
  "markAndCommit e args w =
     (case args of (email, code, newPassword, codeRec) \<Rightarrow>
        (let therapistId = t_therapistId codeRec in
         case updateTokenUsed (markUsedThrows e) AnyVersion code w of
           (Inl err, w1) \<Rightarrow> (reply 500 False ''Server error.'', w1)
         | (Inr u, w1) \<Rightarrow>
             (case queryEntities (prospects w1) (\<lambda>u. u_therapistId u = therapistId) of
                Inl err \<Rightarrow> (reply 400 False ''Account not found.'', w1)
              | Inr [] \<Rightarrow> (reply 400 False ''Account not found.'', w1)
              | Inr ((k, user) # rest) \<Rightarrow>
                  (case updateUserPassword (passwordUpdateThrows e) AnyVersion (u_email user)
                          (bcryptHash e newPassword) w1 of
                     (Inl err, w3) \<Rightarrow> (reply 500 False ''Failed to update password.'', w3)
                   | (Inr u', w3) \<Rightarrow> (reply 200 True ''Password reset successfully.'', w3)))))"

definition resetpassword ::
  "redeem_env \<Rightarrow> redeem_body option \<Rightarrow> world \<Rightarrow> response \<times> world" where
  "resetpassword e req w =
     (case validateAndFetch e req w of
        (Inl r, w1) \<Rightarrow> (r, w1)
      | (Inr args, w1) \<Rightarrow> markAndCommit e args w1)"

subsection \<open>Vocabulary of the properties\<close>

definition emailOk :: "redeem_body \<Rightarrow> bool" where
  \<comment> \<open>the email of a redemption request passes the shape check\<close>
  "emailOk b = isValidEmail (normalizeStr (rb_email b))"

definition codeOk :: "redeem_body \<Rightarrow> bool" where
  \<comment> \<open>the code of a redemption request is there and is exactly six digits\<close>
  "codeOk b = (case rb_code b of None \<Rightarrow> False | Some c \<Rightarrow> sixDigits c)"

definition ownedBy :: "string \<Rightarrow> world \<Rightarrow> (string \<times> token) list" where
  "ownedBy tid w = filter (\<lambda>(k, t). t_therapistId t = tid) (resetrequests w)"

definition activeOf :: "int \<Rightarrow> string \<Rightarrow> world \<Rightarrow> (string \<times> token) list" where
  \<comment> \<open>the owner's token records that are unused and not expired\<close>
  "activeOf now tid w = filter (\<lambda>(k, t). isActive now t) (ownedBy tid w)"

definition newCalls :: "world \<Rightarrow> world \<Rightarrow> call list" where
  \<comment> \<open>the remote calls logged between two worlds\<close>
  "newCalls w w' = drop (length (calls w)) (calls w')"

definition usedOrGone :: "string \<Rightarrow> world \<Rightarrow> bool" where
  \<comment> \<open>no record under the code, or one that is marked used\<close>
  "usedOrGone c w = (case map_of (resetrequests w) c of None \<Rightarrow> True | Some t \<Rightarrow> t_used t)"


text \<open>Calls to the two handlers, served one after the other.\<close>

datatype api_call = Issue issue_env "issue_body option" | Redeem redeem_env "redeem_body option"

fun serve :: "api_call \<Rightarrow> world \<Rightarrow> response \<times> world" where
  "serve (Issue e req) w = requestpasswordreset e req w"
| "serve (Redeem e req) w = resetpassword e req w"

fun serveAll :: "api_call list \<Rightarrow> world \<Rightarrow> world" where
  "serveAll [] w = w"
| "serveAll (a # as) w = serveAll as (snd (serve a w))"

fun mints :: "string \<Rightarrow> api_call \<Rightarrow> bool" where
  \<comment> \<open>the call is an issuance whose random draw gives the code\<close>
  "mints c (Issue e req) = (newCode (i_random e) = c)"
| "mints c (Redeem e req) = False"


subsection \<open>Example data\<close>

definition alice :: user where
  "alice = \<lparr>u_email = ''alice@example.com'', u_therapistId = ''T1'',
            u_hashedPassword = ''old-hash'', u_etag = 0\<rparr>"

definition bobToken :: token where
  "bobToken = \<lparr>t_therapistId = ''T2'', t_email = ''bob@example.com'', t_createdAt = 0,
     t_expiresAt = 900000, t_used = False, t_etag = 0\<rparr>"

definition emptyWorld :: world where
  "emptyWorld = \<lparr>prospects = [], resetrequests = [], outbox = [], calls = []\<rparr>"

definition calmIssue :: "int \<Rightarrow> real \<Rightarrow> issue_env" where
  \<comment> \<open>an issuance at time \<open>t\<close> with random draw \<open>r\<close> in which no remote call throws\<close>
  "calmIssue t r = \<lparr>i_now = t, i_random = r, userLookupThrows = False,
     batchDeleteThrows = False, upsertThrows = False, sendThrows = False\<rparr>"

definition calmRedeem :: "int \<Rightarrow> redeem_env" where
  \<comment> \<open>a redemption at time \<open>t\<close> in which no remote call throws\<close>
  "calmRedeem t = \<lparr>r_now = t, bcryptHash = (\<lambda>p. ''bcrypt:'' @ p), tokenGetThrows = False,
     tokenDeleteThrows = False, markUsedThrows = False, passwordUpdateThrows = False\<rparr>"

definition aliceBody :: redeem_body where
  "aliceBody = \<lparr>rb_email = Some ''alice@example.com'', rb_code = Some ''123456'',
                 rb_newPassword = Some ''Abcdefg1''\<rparr>"

definition aliceToken :: "int \<Rightarrow> token" where
  \<comment> \<open>a token record minted for alice at time \<open>t\<close>\<close>
  "aliceToken t = \<lparr>t_therapistId = ''T1'', t_email = ''alice@example.com'', t_createdAt = t,
     t_expiresAt = t + 900000, t_used = False, t_etag = 0\<rparr>"

definition busyWorld :: world where
  \<comment> \<open>alice with two active tokens\<close>
  "busyWorld = emptyWorld\<lparr>prospects := [(''alice@example.com'', alice)],
     resetrequests := [(''111111'', aliceToken 0), (''222222'', aliceToken 1000)]\<rparr>"

definition aliceIssue :: "issue_body option" where
  "aliceIssue = Some \<lparr>ib_email = Some ''Alice@Example.com ''\<rparr>"

definition aliceWorld :: world where
  \<comment> \<open>alice without any token\<close>
  "aliceWorld = emptyWorld\<lparr>prospects := [(''alice@example.com'', alice)]\<rparr>"

definition bobUsedWorld :: world where
  \<comment> \<open>alice without a token, and a used token of another owner\<close>
  "bobUsedWorld = aliceWorld\<lparr>resetrequests := [(''550000'', bobToken\<lparr>t_used := True\<rparr>)]\<rparr>"

definition tokenWorld :: world where
  \<comment> \<open>alice with one active token\<close>
  "tokenWorld = aliceWorld\<lparr>resetrequests := [(''123456'', aliceToken 0)]\<rparr>"


section \<open>Properties\<close>

subsection \<open>Unfolding and evaluation\<close>

lemmas char_defs = isSpace_def isUpper_def isLower_def isDigit_def isLineTerminator_def
  hasLowerCase_def

lemmas email_defs = isValidEmail_def normalizeStr_def trim_def toLowerCase_def emailRegex_def
  oneOrMore_def notSpaceNorAt_def char_defs char_of_def

lemmas password_defs = isValidPassword_def htmlChars_def hasLowerUpperDigit_def ahead_def
  char_defs upt_rec

lemmas call_defs = getUser_def queryEntities_def submitDeletes_def upsertToken_def sendMail_def
  getToken_def deleteToken_def updateTokenUsed_def updateUserPassword_def
  logCall_def etagMatches_def

lemma isValidEmail_Nil [simp]: "\<not> isValidEmail []"
  by (simp add: email_defs)

lemma sixDigits_Nil [simp]: "\<not> sixDigits []"
  by (simp add: sixDigits_def)

lemma normalize_alice_raw: "normalizeStr (Some ''Alice@Example.com '') = ''alice@example.com''"
  by code_simp

lemma normalize_alice: "normalizeStr (Some ''alice@example.com'') = ''alice@example.com''"
  by code_simp

lemma normalize_bob: "normalizeStr (Some ''bob@example.com'') = ''bob@example.com''"
  by code_simp

lemma valid_alice: "isValidEmail ''alice@example.com''"
  by code_simp

lemma sixDigits_123456: "sixDigits ''123456''"
  by (simp add: sixDigits_def isDigit_def)

text \<open>The helpers on a few inputs.\<close>

lemma normalizeStr_examples:
  "normalizeStr None = []"
  "normalizeStr (Some [CHR 0xA0, CHR 0x09, CHR ''A'', CHR 0xC9, CHR 0xD7, CHR 0xA0]) =
     [CHR ''a'', CHR 0xE9, CHR 0xD7]"
  by code_simp+

lemma isValidEmail_examples:
  "isValidEmail ''a@b.c''" "isValidEmail ''first.last@mail.example.org''"
  "\<not> isValidEmail ''alice@example''" "\<not> isValidEmail ''a@b@c.d''"
  "\<not> isValidEmail ''a b@c.d''" "\<not> isValidEmail ''@b.c''" "\<not> isValidEmail ''a@.c''"
  "\<not> isValidEmail ''a@b.''" "\<not> isValidEmail [CHR ''a'', CHR 0xA0, CHR ''b'', CHR ''@'', CHR ''c'', CHR ''.'', CHR ''d'']"
  "isValidEmail [CHR 0xA0, CHR ''a'', CHR ''@'', CHR ''c'', CHR ''.'', CHR ''d'']"
  by code_simp+

lemma sixDigits_examples:
  "sixDigits ''000000''" "\<not> sixDigits ''12345''" "\<not> sixDigits ''1234567''"
  "\<not> sixDigits ''12a456''"
  by (simp_all add: sixDigits_def isDigit_def)

lemma isValidPassword_examples:
  "isValidPassword (Some ''Abcdefg1'')" "\<not> isValidPassword None"
  "\<not> isValidPassword (Some ''Abcde1'')" "\<not> isValidPassword (Some ''ABCDEFG1'')"
  "\<not> isValidPassword (Some ''Abcdefg1<'')"
  by (simp_all add: password_defs)

lemma toString_examples:
  "toString 0 = ''0''" "toString 100000 = ''100000''" "toString 999999 = ''999999''"
  by (simp_all add: toString.simps char_of_def bit_Suc_0_iff)

lemma aliceBody_valid:
  "emailOk aliceBody" "codeOk aliceBody" "isValidPassword (rb_newPassword aliceBody)"
  by (simp_all add: aliceBody_def emailOk_def codeOk_def sixDigits_123456 normalize_alice
        valid_alice password_defs)

subsection \<open>Issuance: the user lookup\<close>

text \<open>
  C10. In an issuance call with a valid email, every failure of the user lookup, the call
  throwing for a reason of its own just as the entity not being there, gives the same answer:
  status 200, \<open>success\<close> false, the message \<open>Account not found.\<close> and \<open>redirectTo\<close>
  \<open>/subscribe\<close>. The lookup is the only remote call made.
\<close>

theorem lookup_failure_answers_account_not_found:
  assumes "isValidEmail (normalizeStr (ib_email body))"
    and "userLookupThrows e \<or> map_of (prospects w) (normalizeStr (ib_email body)) = None"
  shows "requestpasswordreset e (Some body) w =
           (\<lparr>status = 200, success = False, message = ''Account not found.'',
             redirectTo = Some ''/subscribe''\<rparr>,
            w\<lparr>calls := calls w @ [GetUser (normalizeStr (ib_email body))]\<rparr>)"
  using assms
  by (auto simp: requestpasswordreset_def getUser_def logCall_def accountNotFoundRedirect_def
        Let_def)

theorem lookup_failure_answers_account_not_found_witness:
  "requestpasswordreset ((calmIssue 0 0)\<lparr>userLookupThrows := True\<rparr>)
      (Some \<lparr>ib_email = Some ''Alice@Example.com ''\<rparr>)
      (emptyWorld\<lparr>prospects := [(''alice@example.com'', alice)]\<rparr>) =
     (\<lparr>status = 200, success = False, message = ''Account not found.'',
       redirectTo = Some ''/subscribe''\<rparr>,
      emptyWorld\<lparr>prospects := [(''alice@example.com'', alice)],
                   calls := [GetUser ''alice@example.com'']\<rparr>)"
  using lookup_failure_answers_account_not_found
     [of "\<lparr>ib_email = Some ''Alice@Example.com ''\<rparr>"
         "(calmIssue 0 0)\<lparr>userLookupThrows := True\<rparr>"
         "emptyWorld\<lparr>prospects := [(''alice@example.com'', alice)]\<rparr>"]
  by (simp add: normalize_alice_raw valid_alice calmIssue_def emptyWorld_def)

subsection \<open>Redemption: validation and the token checks\<close>

text \<open>
  C8. A redemption call whose email fails the shape check, whose code is not exactly six
  digits, or whose new password fails the password policy is answered with status 400 and the
  message of the first field that fails, and the world is returned as it was: no table is
  read or written and no remote call is logged.
\<close>

theorem invalid_input_rejected_before_any_call:
  assumes "\<not> emailOk b \<or> \<not> codeOk b \<or> \<not> isValidPassword (rb_newPassword b)"
  shows "resetpassword e (Some b) w =
           (reply 400 False
              (if \<not> emailOk b then ''Valid email is required.''
               else if \<not> codeOk b then ''Valid 6-digit code is required.''
               else ''Password must be 8-128 characters with at least one uppercase letter, one lowercase letter, and one digit. HTML characters are not allowed.''),
            w)"
  using assms
  by (auto simp: resetpassword_def validateAndFetch_def emailOk_def codeOk_def Let_def
        split: option.splits)

lemma abcdefgh_invalid: "\<not> isValidPassword (Some ''abcdefgh'')"
  by (simp add: password_defs)

theorem invalid_input_rejected_before_any_call_witness:
  "resetpassword (calmRedeem 0) (Some (aliceBody\<lparr>rb_newPassword := Some ''abcdefgh''\<rparr>))
       (emptyWorld\<lparr>prospects := [(''alice@example.com'', alice)]\<rparr>) =
     (reply 400 False ''Password must be 8-128 characters with at least one uppercase letter, one lowercase letter, and one digit. HTML characters are not allowed.'',
      emptyWorld\<lparr>prospects := [(''alice@example.com'', alice)]\<rparr>)"
  using invalid_input_rejected_before_any_call
     [of "aliceBody\<lparr>rb_newPassword := Some ''abcdefgh''\<rparr>" "calmRedeem 0"
         "emptyWorld\<lparr>prospects := [(''alice@example.com'', alice)]\<rparr>"]
    aliceBody_valid(1,2)
  by (simp add: abcdefgh_invalid emailOk_def codeOk_def aliceBody_def)

text \<open>
  C5. A redemption call whose code has no token record, or has one that belongs to another
  email, is expired or is already used, is answered with status 400, and the \<open>prospects\<close>
  table, hence every hashed password, is left as it was.
\<close>

theorem failed_redemption_keeps_user_records:
  assumes "rb_code b = Some c"
    and "map_of (resetrequests w) c = None \<or>
         (\<exists>t. map_of (resetrequests w) c = Some t \<and>
              (normalizeStr (Some (t_email t)) \<noteq> normalizeStr (rb_email b) \<or>
               t_expiresAt t \<le> r_now e \<or> t_used t))"
  shows "status (fst (resetpassword e (Some b) w)) = 400 \<and>
         prospects (snd (resetpassword e (Some b) w)) = prospects w"
  using assms
  by (auto simp: resetpassword_def validateAndFetch_def call_defs reply_def Let_def
        split: option.splits)

theorem failed_redemption_keeps_user_records_witness:
  "status (fst (resetpassword (calmRedeem 1000) (Some aliceBody)
       (emptyWorld\<lparr>prospects := [(''alice@example.com'', alice)],
                    resetrequests := [(''123456'', bobToken)]\<rparr>))) = 400 \<and>
   prospects (snd (resetpassword (calmRedeem 1000) (Some aliceBody)
       (emptyWorld\<lparr>prospects := [(''alice@example.com'', alice)],
                    resetrequests := [(''123456'', bobToken)]\<rparr>)))
     = [(''alice@example.com'', alice)]"
  using failed_redemption_keeps_user_records [of aliceBody "''123456''"
     "emptyWorld\<lparr>prospects := [(''alice@example.com'', alice)],
                  resetrequests := [(''123456'', bobToken)]\<rparr>" "calmRedeem 1000"]
  by (simp add: aliceBody_def bobToken_def emptyWorld_def calmRedeem_def normalize_bob
        normalize_alice)

text \<open>
  C2, as the claim states it: after validation, the answer for a code without a token record
  would be the same as the answer for a code whose record carries another email. The two
  answers differ in their message.
\<close>

theorem wrong_email_answer_differs:
  "emailOk aliceBody \<and> codeOk aliceBody \<and> isValidPassword (rb_newPassword aliceBody) \<and>
   map_of (resetrequests emptyWorld) ''123456'' = None \<and>
   map_of (resetrequests (emptyWorld\<lparr>resetrequests := [(''123456'', bobToken)]\<rparr>)) ''123456''
     = Some bobToken \<and>
   normalizeStr (Some (t_email bobToken)) \<noteq> normalizeStr (rb_email aliceBody) \<and>
   message (fst (resetpassword (calmRedeem 1000) (Some aliceBody) emptyWorld)) \<noteq>
   message (fst (resetpassword (calmRedeem 1000) (Some aliceBody)
                   (emptyWorld\<lparr>resetrequests := [(''123456'', bobToken)]\<rparr>)))"
  using aliceBody_valid
  by (simp add: resetpassword_def validateAndFetch_def call_defs emailOk_def codeOk_def
       aliceBody_def bobToken_def emptyWorld_def calmRedeem_def reply_def normalize_bob
       normalize_alice)

text \<open>
  C2, amended. After validation, a code without a token record is answered with status 400
  and the message \<open>Invalid or expired code.\<close>. A code whose record carries another email is
  answered with status 400 and the message \<open>Invalid code or email.\<close> when the fetch returns
  the record, and with the answer for a missing record when the fetch throws. The answers
  agree in status and in the \<open>success\<close> flag; where the fetch returns the record they differ
  in the message.
\<close>

theorem unknown_code_and_wrong_email_answers:
  assumes "emailOk b" and "codeOk b" and "isValidPassword (rb_newPassword b)"
    and "rb_code b = Some c"
    and "map_of (resetrequests w1) c = None"
    and "map_of (resetrequests w2) c = Some t"
    and "normalizeStr (Some (t_email t)) \<noteq> normalizeStr (rb_email b)"
  shows "fst (resetpassword e (Some b) w1) = reply 400 False ''Invalid or expired code.'' \<and>
         fst (resetpassword e (Some b) w2) =
           reply 400 False
             (if tokenGetThrows e then ''Invalid or expired code.'' else ''Invalid code or email.'')"
  using assms
  by (auto simp: resetpassword_def validateAndFetch_def call_defs emailOk_def codeOk_def Let_def
        split: option.splits)

theorem unknown_code_and_wrong_email_answers_witness:
  "fst (resetpassword (calmRedeem 1000) (Some aliceBody) emptyWorld)
     = reply 400 False ''Invalid or expired code.'' \<and>
   fst (resetpassword (calmRedeem 1000) (Some aliceBody)
          (emptyWorld\<lparr>resetrequests := [(''123456'', bobToken)]\<rparr>))
     = reply 400 False ''Invalid code or email.''"
  using unknown_code_and_wrong_email_answers [of aliceBody "''123456''" emptyWorld
     "emptyWorld\<lparr>resetrequests := [(''123456'', bobToken)]\<rparr>" bobToken "calmRedeem 1000"]
    aliceBody_valid
  by (simp add: aliceBody_def bobToken_def emptyWorld_def calmRedeem_def normalize_bob
        normalize_alice)

subsection \<open>Rounding to doubles\<close>

text \<open>
  Bounds on \<open>roundDouble\<close> below \<open>2 ^ 20\<close>, where every multiple of \<open>2 ^ (- 33)\<close> is a double,
  and the range of the number that \<open>newCode\<close> writes.
\<close>

lemma roundHalfEven_le: "y < of_int j + 1 / 2 \<Longrightarrow> roundHalfEven y \<le> j"
  unfolding roundHalfEven_def Let_def by (auto split: if_splits) linarith+

lemma roundHalfEven_ge: "of_int j - 1 / 2 < y \<Longrightarrow> j \<le> roundHalfEven y"
  unfolding roundHalfEven_def Let_def by (auto split: if_splits) linarith+

lemma roundHalfEven_of_int [simp]: "roundHalfEven (of_int j) = j"
  by (simp add: roundHalfEven_def)

lemma expo_le_19:
  assumes "0 < x" and "x < 2 ^ 20"
  shows "expo x \<le> 19"
proof (cases "1 \<le> x")
  case True
  have "\<lfloor>x\<rfloor> < 2 ^ 20" using assms(2) by (simp add: floor_less_iff)
  then have "bitlen \<lfloor>x\<rfloor> \<le> 20" by (simp add: bitlen_le_iff_power)
  with True show ?thesis by (simp add: expo_def)
next
  case False
  then show ?thesis using bitlen_nonneg [of "\<lceil>1 / x\<rceil> - 1"] by (simp add: expo_def)
qed

lemma expo_eq_19:
  assumes "2 ^ 19 \<le> x" and "x < 2 ^ 20"
  shows "expo x = 19"
proof -
  have one: "1 \<le> x" using assms(1) by simp
  have "\<lfloor>x\<rfloor> < 2 ^ 20" using assms(2) by (simp add: floor_less_iff)
  then have "bitlen \<lfloor>x\<rfloor> \<le> 20" by (simp add: bitlen_le_iff_power)
  moreover have "2 ^ 19 \<le> \<lfloor>x\<rfloor>" using assms(1) by (simp add: le_floor_iff)
  then have "20 \<le> bitlen \<lfloor>x\<rfloor>" by (simp add: bitlen_ge_iff_power)
  ultimately show ?thesis using one by (simp add: expo_def)
qed

lemma expo_half:
  assumes "1 / 2 \<le> x" and "x < 1"
  shows "expo x = - 1"
proof -
  have "0 < x" using assms by simp
  have "1 < 1 / x" using assms \<open>0 < x\<close> by (simp add: field_simps)
  moreover have "1 / x \<le> 2" using assms \<open>0 < x\<close> by (simp add: field_simps)
  ultimately have "\<lceil>1 / x\<rceil> = 2" by (simp add: ceiling_eq_iff)
  then show ?thesis using assms by (simp add: expo_def bitlen_alt_def)
qed

lemma ulp_small:
  assumes "0 < x" and "x < 2 ^ 20"
  obtains k :: nat where "33 \<le> k" and "ulp x = 1 / 2 ^ k"
proof -
  let ?n = "max (expo x) (- 1022) - 52"
  have neg: "?n \<le> - 33" using expo_le_19 [OF assms] by simp
  have "ulp x = 2 powi ?n" using assms(1) by (simp add: ulp_def)
  also have "\<dots> = 1 / 2 ^ nat (- ?n)"
    using neg by (simp add: power_int_def field_simps)
  finally have "ulp x = 1 / 2 ^ nat (- ?n)" .
  moreover have "33 \<le> nat (- ?n)" using neg by simp
  ultimately show ?thesis using that by blast
qed

text \<open>A multiple of \<open>2 ^ (- m)\<close> is a double wherever the doubles are at least that dense.\<close>

lemma grid_multiple:
  assumes "m \<le> (k::nat)"
  shows "of_int j / 2 ^ m * 2 ^ k = (of_int (j * 2 ^ (k - m)) :: real)"
proof -
  have "(2::real) ^ k = 2 ^ m * 2 ^ (k - m)"
    using assms by (simp flip: power_add)
  then show ?thesis by simp
qed

lemma roundDouble_le_grid_aux:
  assumes "x \<noteq> 0" and "ulp x = 1 / 2 ^ k" and "m \<le> k" and "x \<le> of_int j / 2 ^ m"
  shows "roundDouble x \<le> of_int j / 2 ^ m"
proof -
  have "x * 2 ^ k \<le> of_int j / 2 ^ m * 2 ^ k"
    by (rule mult_right_mono [OF assms(4)]) simp
  also have "\<dots> = of_int (j * 2 ^ (k - m))" by (rule grid_multiple [OF assms(3)])
  finally have "roundHalfEven (x * 2 ^ k) \<le> j * 2 ^ (k - m)"
    by (intro roundHalfEven_le) simp
  then have "(of_int (roundHalfEven (x * 2 ^ k)) :: real) \<le> of_int (j * 2 ^ (k - m))"
    by (simp only: of_int_le_iff)
  also have "\<dots> = of_int j / 2 ^ m * 2 ^ k" by (rule grid_multiple [OF assms(3), symmetric])
  finally have "(of_int (roundHalfEven (x * 2 ^ k)) :: real) / 2 ^ k \<le> of_int j / 2 ^ m"
    by (simp add: pos_divide_le_eq)
  then show ?thesis using assms(1,2) by (simp add: roundDouble_def)
qed

lemma roundDouble_ge_grid_aux:
  assumes "x \<noteq> 0" and "ulp x = 1 / 2 ^ k" and "m \<le> k" and "of_int j / 2 ^ m \<le> x"
  shows "of_int j / 2 ^ m \<le> roundDouble x"
proof -
  have "of_int (j * 2 ^ (k - m)) = of_int j / 2 ^ m * (2::real) ^ k"
    by (rule grid_multiple [OF assms(3), symmetric])
  also have "\<dots> \<le> x * 2 ^ k"
    by (rule mult_right_mono [OF assms(4)]) simp
  finally have "j * 2 ^ (k - m) \<le> roundHalfEven (x * 2 ^ k)"
    by (intro roundHalfEven_ge) simp
  then have "(of_int (j * 2 ^ (k - m)) :: real) \<le> of_int (roundHalfEven (x * 2 ^ k))"
    by (simp only: of_int_le_iff)
  then have "of_int j / 2 ^ m * 2 ^ k \<le> (of_int (roundHalfEven (x * 2 ^ k)) :: real)"
    by (simp only: grid_multiple [OF assms(3)])
  then have "of_int j / 2 ^ m \<le> (of_int (roundHalfEven (x * 2 ^ k)) :: real) / 2 ^ k"
    by (simp add: pos_le_divide_eq)
  then show ?thesis using assms(1,2) by (simp add: roundDouble_def)
qed

lemma roundDouble_le_grid:
  assumes "0 < x" and "x < 2 ^ 20" and "x \<le> of_int j / 2 ^ 33"
  shows "roundDouble x \<le> of_int j / 2 ^ 33"
proof -
  from ulp_small [OF assms(1,2)] obtain k :: nat where k: "33 \<le> k" "ulp x = 1 / 2 ^ k" .
  from assms(1) have "x \<noteq> 0" by simp
  from roundDouble_le_grid_aux [OF this k(2) k(1) assms(3)] show ?thesis .
qed

lemma roundDouble_ge_grid:
  assumes "0 < x" and "x < 2 ^ 20" and "of_int j / 2 ^ 33 \<le> x"
  shows "of_int j / 2 ^ 33 \<le> roundDouble x"
proof -
  from ulp_small [OF assms(1,2)] obtain k :: nat where k: "33 \<le> k" "ulp x = 1 / 2 ^ k" .
  from assms(1) have "x \<noteq> 0" by simp
  from roundDouble_ge_grid_aux [OF this k(2) k(1) assms(3)] show ?thesis .
qed

lemma powi_neg_nat: "(2::real) powi (- int k) = 1 / 2 ^ k"
  by (simp add: power_int_minus field_simps)

lemma ulp_top:
  assumes "2 ^ 19 \<le> x" and "x < 2 ^ 20"
  shows "ulp x = 1 / 2 ^ 33"
proof -
  have "ulp x = 2 powi (- int 33)" using assms expo_eq_19 [OF assms] by (simp add: ulp_def)
  then show ?thesis by (simp only: powi_neg_nat)
qed

lemma ulp_half:
  assumes "1 / 2 \<le> x" and "x < 1"
  shows "ulp x = 1 / 2 ^ 53"
proof -
  have "ulp x = 2 powi (- int 53)" using assms expo_half [OF assms] by (simp add: ulp_def)
  then show ?thesis by (simp only: powi_neg_nat)
qed

lemma roundDouble_eq:
  "x \<noteq> 0 \<Longrightarrow> ulp x = 1 / 2 ^ k \<Longrightarrow>
     roundDouble x = of_int (roundHalfEven (x * 2 ^ k)) / 2 ^ k"
  by (simp add: roundDouble_def)

text \<open>The largest double below 1 is \<open>1 - 2 ^ (- 53)\<close>.\<close>

lemma isRandom_le:
  assumes "isRandom r"
  shows "r \<le> 1 - 1 / 2 ^ 53"
proof (cases "r < 1 / 2")
  case True
  then show ?thesis by simp
next
  case False
  with assms have r: "1 / 2 \<le> r" "r < 1" "roundDouble r = r"
    by (simp_all add: isRandom_def isDouble_def)
  define K where "K = roundHalfEven (r * 2 ^ 53)"
  from r(1) have "r \<noteq> 0" by auto
  from roundDouble_eq [OF this ulp_half [OF r(1,2)]] r(3)
  have eq: "r = of_int K / 2 ^ 53" by (simp add: K_def)
  with r(2) have "(of_int K :: real) < 2 ^ 53" by simp
  then have "K < 2 ^ 53" by simp
  then have "K \<le> 2 ^ 53 - 1" by simp
  then have "(of_int K :: real) \<le> 2 ^ 53 - 1" by simp
  then show ?thesis by (subst eq) simp
qed

lemma product_range:
  assumes "0 \<le> r" and "r \<le> 1 - 1 / 2 ^ 53"
  shows "0 \<le> roundDouble (r * 900000) \<and> roundDouble (r * 900000) \<le> 900000 - 1 / 2 ^ 33"
proof (cases "r = 0")
  case True
  then show ?thesis by (simp add: roundDouble_def)
next
  case False
  define p where "p = r * 900000"
  from False assms have pos: "0 < p" by (simp add: p_def)
  from assms(2) have top: "p \<le> 900000 - 900000 / 2 ^ 53" by (simp add: p_def)
  then have small: "p < 2 ^ 20" by simp
  have "of_int 0 / 2 ^ 33 \<le> roundDouble p"
    by (rule roundDouble_ge_grid [OF pos small]) (use pos in simp)
  then have lower: "0 \<le> roundDouble p" by simp
  have upper: "roundDouble p \<le> of_int (900000 * 2 ^ 33 - 1) / 2 ^ 33"
  proof (cases "p \<le> of_int (900000 * 2 ^ 33 - 1) / 2 ^ 33")
    case True
    then show ?thesis by (rule roundDouble_le_grid [OF pos small])
  next
    case False
    then have big: "2 ^ 19 \<le> p" by simp
    from pos have nz: "p \<noteq> 0" by simp
    have "p * 2 ^ 33 < of_int (900000 * 2 ^ 33 - 1) + 1 / 2" using top by simp
    then have "roundHalfEven (p * 2 ^ 33) \<le> 900000 * 2 ^ 33 - 1" by (rule roundHalfEven_le)
    then have "(of_int (roundHalfEven (p * 2 ^ 33)) :: real) \<le> of_int (900000 * 2 ^ 33 - 1)"
      by (simp only: of_int_le_iff)
    then have "(of_int (roundHalfEven (p * 2 ^ 33)) :: real) / 2 ^ 33
        \<le> of_int (900000 * 2 ^ 33 - 1) / 2 ^ 33"
      by (rule divide_right_mono) simp
    then show ?thesis
      by (simp only: roundDouble_eq [OF nz ulp_top [OF big small]])
  qed
  from lower upper show ?thesis by (simp add: p_def)
qed

lemma drawn_number_range:
  assumes "isRandom r"
  shows "100000 \<le> nat \<lfloor>roundDouble (100000 + roundDouble (r * 900000))\<rfloor> \<and>
         nat \<lfloor>roundDouble (100000 + roundDouble (r * 900000))\<rfloor> \<le> 999999"
proof -
  define s where "s = 100000 + roundDouble (r * 900000)"
  from assms have "0 \<le> r" by (simp add: isRandom_def)
  from product_range [OF this isRandom_le [OF assms]]
  have s: "100000 \<le> s" "s \<le> 1000000 - 1 / 2 ^ 33" by (simp_all add: s_def)
  then have pos: "0 < s" and small: "s < 2 ^ 20" by simp_all
  have "of_int (100000 * 2 ^ 33) / 2 ^ 33 \<le> roundDouble s"
    by (rule roundDouble_ge_grid [OF pos small]) (use s in simp)
  then have lo: "100000 \<le> roundDouble s" by simp
  have "roundDouble s \<le> of_int (1000000 * 2 ^ 33 - 1) / 2 ^ 33"
    by (rule roundDouble_le_grid [OF pos small]) (use s in simp)
  then have hi: "roundDouble s < 1000000" by simp
  from lo have "(100000::int) \<le> \<lfloor>roundDouble s\<rfloor>" by (simp add: le_floor_iff)
  moreover from hi have "\<lfloor>roundDouble s\<rfloor> < (1000000::int)" by (simp add: floor_less_iff)
  ultimately show ?thesis unfolding s_def by linarith
qed

subsection \<open>Issuance: cleanup, rate limit and minting\<close>

lemma logCall_simps [simp]:
  "prospects (logCall c w) = prospects w"
  "resetrequests (logCall c w) = resetrequests w"
  "outbox (logCall c w) = outbox w"
  "calls (logCall c w) = calls w @ [c]"
  by (simp_all add: logCall_def)

text \<open>
  The enumeration throws in every call, so the \<open>try\<close> block of the cleanup always ends in its
  \<open>catch\<close>: nothing is deleted and the limit is not tested.
\<close>

lemma cleanupAndLimit_eq: "cleanupAndLimit e tid w = (False, w)"
  by (simp add: cleanupAndLimit_def queryEntities_def)

text \<open>The minted code: a number from 100000 to 999999, written with six digits.\<close>

lemma toString_digits: "list_all isDigit (toString n)"
proof (induction n rule: toString.induct)
  case (1 n)
  have d: "isDigit (char_of (48 + m))" if "m < 10" for m :: nat
    using that by (simp add: isDigit_def)
  show ?case
  proof (cases "n < 10")
    case True
    then show ?thesis by (subst toString.simps) (simp add: d)
  next
    case False
    with 1 show ?thesis by (subst toString.simps) (simp add: d)
  qed
qed

lemma toString_length:
  "10 ^ k \<le> n \<Longrightarrow> n < 10 ^ Suc k \<Longrightarrow> length (toString n) = Suc k"
proof (induction k arbitrary: n)
  case 0
  then show ?case by (subst toString.simps) simp
next
  case (Suc k)
  have "(1::nat) \<le> 10 ^ k" by simp
  moreover have "10 * 10 ^ k \<le> n" using Suc.prems by simp
  ultimately have "\<not> n < 10" by linarith
  moreover from Suc.prems have "10 ^ k \<le> n div 10" "n div 10 < 10 ^ Suc k"
    by (simp_all add: less_mult_imp_div_less mult.commute div_le_mono le_div_geq)
  ultimately show ?case
    using Suc.IH [of "n div 10"] by (subst toString.simps) simp
qed

lemma newCode_sixDigits:
  assumes "isRandom r"
  shows "sixDigits (newCode r)"
proof -
  let ?n = "nat \<lfloor>roundDouble (100000 + roundDouble (r * 900000))\<rfloor>"
  from drawn_number_range [OF assms] have "10 ^ 5 \<le> ?n" "?n < 10 ^ Suc 5" by simp_all
  then have "length (toString ?n) = Suc 5" by (rule toString_length)
  then show ?thesis by (simp add: sixDigits_def newCode_def toString_digits)
qed

text \<open>Numbers that are doubles, and the code for a few draws.\<close>

lemma roundDouble_fixed:
  assumes "0 < x" and "x < 2 ^ 20" and "of_int \<lfloor>x * 2 ^ 33\<rfloor> = x * 2 ^ 33"
  shows "roundDouble x = x"
proof -
  define j where "j = \<lfloor>x * 2 ^ 33\<rfloor>"
  from assms(3) have "of_int j = x * 2 ^ 33" by (simp only: j_def)
  then have x: "x = of_int j / 2 ^ 33" by simp
  then have "roundDouble x \<le> of_int j / 2 ^ 33" "of_int j / 2 ^ 33 \<le> roundDouble x"
    using roundDouble_le_grid [OF assms(1,2), of j] roundDouble_ge_grid [OF assms(1,2), of j]
    by simp_all
  with x show ?thesis by simp
qed

lemma isRandom_zero: "isRandom 0"
  by (simp add: isRandom_def isDouble_def roundDouble_def)

lemma isRandom_half: "isRandom (1 / 2)"
proof -
  have "roundDouble (1 / 2) = 1 / 2" by (rule roundDouble_fixed) simp_all
  then show ?thesis by (simp add: isRandom_def isDouble_def)
qed

lemma toString_100000: "toString 100000 = ''100000''"
  by (simp add: toString.simps char_of_def bit_Suc_0_iff)

lemma toString_550000: "toString 550000 = ''550000''"
  by (simp add: toString.simps char_of_def bit_Suc_0_iff)

lemma newCode_zero: "newCode 0 = ''100000''"
proof -
  have "roundDouble 100000 = 100000" by (rule roundDouble_fixed) simp_all
  then show ?thesis by (simp add: newCode_def roundDouble_def toString_100000)
qed

lemma newCode_half: "newCode (1 / 2) = ''550000''"
proof -
  have "roundDouble 450000 = 450000" by (rule roundDouble_fixed) simp_all
  moreover have "roundDouble 550000 = 550000" by (rule roundDouble_fixed) simp_all
  ultimately show ?thesis by (simp add: newCode_def toString_550000)
qed

lemma expo_eqI:
  assumes "2 ^ n \<le> x" and "x < 2 ^ Suc n"
  shows "expo x = int n"
proof -
  have one: "1 \<le> x" using assms(1) one_le_power [of "2::real" n] by linarith
  have "\<lfloor>x\<rfloor> < 2 ^ Suc n" using assms(2) by (simp add: floor_less_iff)
  then have "bitlen \<lfloor>x\<rfloor> \<le> int (Suc n)"
    by (subst bitlen_le_iff_power) (simp del: of_nat_Suc)
  moreover have "2 ^ n \<le> \<lfloor>x\<rfloor>" using assms(1) by (simp add: le_floor_iff)
  then have "int (Suc n) \<le> bitlen \<lfloor>x\<rfloor>"
    by (subst bitlen_ge_iff_power) (simp del: of_nat_Suc)
  ultimately show ?thesis using one by (simp add: expo_def)
qed

lemma ulp_eqI:
  assumes "2 ^ n \<le> x" and "x < 2 ^ Suc n" and "n \<le> 52"
  shows "ulp x = 1 / 2 ^ (52 - n)"
proof -
  have "0 < x" using assms(1) zero_less_power [of "2::real" n] by linarith
  then have "ulp x = 2 powi (- int (52 - n))"
    using expo_eqI [OF assms(1,2)] assms(3) by (simp add: ulp_def of_nat_diff)
  then show ?thesis by (simp only: powi_neg_nat)
qed

text \<open>
  A draw for which the rounding of the sum decides the code: the exact sum is below 100030,
  the nearest double is 100030.
\<close>

lemma newCode_rounds_up: "newCode (150119987579 / 2 ^ 52) = ''100030''"
proof -
  define p :: real where "p = 8444249301318750 / 2 ^ 48"
  have prod: "150119987579 / 2 ^ 52 * 900000 = p" by (simp add: p_def)
  have "ulp p = 1 / 2 ^ (52 - 4)" by (rule ulp_eqI) (simp_all add: p_def)
  then have "roundDouble p = of_int (roundHalfEven (p * 2 ^ 48)) / 2 ^ 48"
    by (intro roundDouble_eq) (simp_all add: p_def)
  then have rp: "roundDouble p = p" by (simp add: p_def roundHalfEven_def)
  have "ulp (100000 + p) = 1 / 2 ^ (52 - 16)" by (rule ulp_eqI) (simp_all add: p_def)
  then have "roundDouble (100000 + p) = of_int (roundHalfEven ((100000 + p) * 2 ^ 36)) / 2 ^ 36"
    by (intro roundDouble_eq) (simp_all add: p_def)
  moreover have "roundHalfEven ((100000 + p) * 2 ^ 36) = 100030 * 2 ^ 36"
    by (simp add: p_def roundHalfEven_def Let_def)
  ultimately have "roundDouble (100000 + p) = 100030" by simp
  moreover have "toString 100030 = ''100030''"
    by (simp add: toString.simps char_of_def bit_Suc_0_iff)
  ultimately show ?thesis unfolding newCode_def prod rp by simp
qed

lemma upsert_calls [simp]:
  "calls (snd (upsertToken b k t w)) = calls w @ [UpsertToken k]"
  by (simp add: upsertToken_def)

lemma sendMail_calls [simp]:
  "calls (snd (sendMail b a c w)) = calls w @ [SendMail a]"
  by (simp add: sendMail_def)

lemma upsert_tokens:
  "\<not> b \<Longrightarrow> map_of (resetrequests (snd (upsertToken b k t w))) =
     (map_of (resetrequests w))(k \<mapsto> t\<lparr>t_etag := (case map_of (resetrequests w) k of
                                     None \<Rightarrow> 0 | Some old \<Rightarrow> Suc (t_etag old))\<rparr>)"
  by (simp add: upsertToken_def update_conv')

lemma sendMail_tokens [simp]:
  "resetrequests (snd (sendMail b a c w)) = resetrequests w"
  by (simp add: sendMail_def)

text \<open>The issuance handler, path by path.\<close>

lemma requestpasswordreset_eq:
  "requestpasswordreset e (Some body) w =
     (let email = normalizeStr (ib_email body);
          w1 = logCall (GetUser email) w
      in if \<not> isValidEmail email then (reply 400 False ''A valid email is required.'', w)
         else if userLookupThrows e then (accountNotFoundRedirect, w1)
         else case map_of (prospects w) email of
                None \<Rightarrow> (accountNotFoundRedirect, w1)
              | Some u \<Rightarrow>
                 (let code = newCode (i_random e);
                      w3 = snd (upsertToken (upsertThrows e) code
                                  (newRecord e (u_therapistId u) email) w1)
                  in if upsertThrows e
                       then (reply 500 False ''Could not generate reset token.'', w3)
                     else (resetSent, snd (sendMail (sendThrows e) email code w3))))"
  by (auto simp: requestpasswordreset_def cleanupAndLimit_eq getUser_def upsertToken_def Let_def
        split: option.splits)

lemmas example_defs = aliceIssue_def busyWorld_def emptyWorld_def alice_def aliceToken_def
  bobToken_def calmIssue_def calmRedeem_def aliceBody_def aliceWorld_def

lemmas issue_defs = requestpasswordreset_def cleanupAndLimit_eq getUser_def upsertToken_def
  sendMail_def newRecord_def rateLimited_def resetSent_def accountNotFoundRedirect_def reply_def
  activeOf_def ownedBy_def isActive_def Let_def

lemma calm_send [simp]:
  "(calmIssue t r)\<lparr>sendThrows := False\<rparr> = calmIssue t r"
  by (simp add: calmIssue_def)

lemma emptyWorld_simps [simp]:
  "prospects emptyWorld = []" "resetrequests emptyWorld = []"
  "outbox emptyWorld = []" "calls emptyWorld = []"
  by (simp_all add: emptyWorld_def)

lemma calmIssue_simps [simp]:
  "i_now (calmIssue t r) = t" "i_random (calmIssue t r) = r"
  "\<not> userLookupThrows (calmIssue t r)"
  "\<not> batchDeleteThrows (calmIssue t r)" "\<not> upsertThrows (calmIssue t r)"
  "\<not> sendThrows (calmIssue t r)"
  by (simp_all add: calmIssue_def)

text \<open>
  C3. The claim: an issuance call for an existing user who already owns two or more active
  tokens is answered 429, creates no record and sends no mail. The handler does test
  \<open>active.length >= 2\<close>, but only after \<open>queryEntities\<close>, which throws in every call; the
  \<open>catch\<close> swallows the exception and the call goes on to mint. No issuance call is answered
  429, and for alice with two active tokens the call stores a third token, mails its code
  and answers 200.
\<close>

theorem third_token_minted_despite_two_active:
  "isValidEmail (normalizeStr (Some ''Alice@Example.com '')) \<and>
   map_of (prospects busyWorld) (normalizeStr (Some ''Alice@Example.com '')) = Some alice \<and>
   2 \<le> length (activeOf 2000 (u_therapistId alice) busyWorld) \<and>
   requestpasswordreset (calmIssue 2000 (1 / 2)) aliceIssue busyWorld =
     (reply 200 True ''If your account exists, a reset link has been sent to your email.'',
      busyWorld\<lparr>
        resetrequests := [(''111111'', aliceToken 0), (''222222'', aliceToken 1000),
                          (''550000'', aliceToken 2000)],
        outbox := [\<lparr>m_to = ''alice@example.com'', m_code = ''550000''\<rparr>],
        calls := [GetUser ''alice@example.com'', UpsertToken ''550000'',
                  SendMail ''alice@example.com'']\<rparr>)"
  by (simp add: issue_defs example_defs normalize_alice_raw valid_alice newCode_half logCall_def)

lemma issuance_never_rate_limited: "status (fst (requestpasswordreset e req w)) \<noteq> 429"
proof (cases req)
  case None
  then show ?thesis by (simp add: requestpasswordreset_def reply_def)
next
  case (Some body)
  then show ?thesis
    by (simp add: requestpasswordreset_eq Let_def reply_def accountNotFoundRedirect_def
          resetSent_def split: option.splits)
qed

subsection \<open>Issuance: the notification\<close>

lemma send_flag_not_in_answer:
  "fst (requestpasswordreset (e\<lparr>sendThrows := b\<rparr>) req w) = fst (requestpasswordreset e req w)"
proof (cases req)
  case None
  then show ?thesis by (simp add: requestpasswordreset_def)
next
  case (Some body)
  then show ?thesis
    by (simp add: requestpasswordreset_eq Let_def split: option.splits)
qed

lemma mail_call_means_success:
  assumes "SendMail a \<in> set (newCalls w (snd (requestpasswordreset e req w)))"
  shows "fst (requestpasswordreset e req w) = resetSent"
proof (cases req)
  case None
  with assms show ?thesis by (simp add: requestpasswordreset_def newCalls_def)
next
  case (Some body)
  with assms show ?thesis
    by (auto simp: requestpasswordreset_eq Let_def newCalls_def
          split: option.splits if_splits)
qed

text \<open>
  C7. An issuance call that reaches the notification step, that is one that calls the mail
  service, is answered with status 200 and \<open>success\<close> true, and the answer is the same
  whether the send throws or not.
\<close>

theorem notification_failure_not_visible:
  assumes "requestpasswordreset e req w = (r, w')"
    and "SendMail a \<in> set (newCalls w w')"
  shows "r = \<lparr>status = 200, success = True,
               message = ''If your account exists, a reset link has been sent to your email.'',
               redirectTo = None\<rparr> \<and>
         fst (requestpasswordreset (e\<lparr>sendThrows := True\<rparr>) req w) = r \<and>
         fst (requestpasswordreset (e\<lparr>sendThrows := False\<rparr>) req w) = r"
proof -
  from assms have "fst (requestpasswordreset e req w) = resetSent"
    using mail_call_means_success [of a w e req] by simp
  with assms(1) have "r = resetSent" by simp
  moreover have "fst (requestpasswordreset (e\<lparr>sendThrows := b\<rparr>) req w) = r" for b
    using assms(1) by (simp add: send_flag_not_in_answer)
  ultimately show ?thesis by (simp add: resetSent_def reply_def)
qed

lemma quiet_issue:
  "requestpasswordreset ((calmIssue 2000 (1 / 2))\<lparr>sendThrows := True\<rparr>) aliceIssue
      (emptyWorld\<lparr>prospects := [(''alice@example.com'', alice)]\<rparr>) =
     (reply 200 True ''If your account exists, a reset link has been sent to your email.'',
      emptyWorld\<lparr>prospects := [(''alice@example.com'', alice)],
        resetrequests := [(''550000'', aliceToken 2000)],
        calls := [GetUser ''alice@example.com'', UpsertToken ''550000'',
                  SendMail ''alice@example.com'']\<rparr>)"
  by (simp add: issue_defs aliceIssue_def alice_def aliceToken_def calmIssue_def
        normalize_alice_raw valid_alice newCode_half logCall_def)

theorem notification_failure_not_visible_witness:
  "outbox (snd (requestpasswordreset ((calmIssue 2000 (1/2))\<lparr>sendThrows := True\<rparr>) aliceIssue
      (emptyWorld\<lparr>prospects := [(''alice@example.com'', alice)]\<rparr>))) = [] \<and>
   fst (requestpasswordreset ((calmIssue 2000 (1/2))\<lparr>sendThrows := True\<rparr>) aliceIssue
      (emptyWorld\<lparr>prospects := [(''alice@example.com'', alice)]\<rparr>)) =
     \<lparr>status = 200, success = True,
      message = ''If your account exists, a reset link has been sent to your email.'',
      redirectTo = None\<rparr> \<and>
   fst (requestpasswordreset (calmIssue 2000 (1/2)) aliceIssue
      (emptyWorld\<lparr>prospects := [(''alice@example.com'', alice)]\<rparr>)) =
     \<lparr>status = 200, success = True,
      message = ''If your account exists, a reset link has been sent to your email.'',
      redirectTo = None\<rparr>"
proof -
  have sent: "SendMail ''alice@example.com'' \<in> set (newCalls
      (emptyWorld\<lparr>prospects := [(''alice@example.com'', alice)]\<rparr>)
      (emptyWorld\<lparr>prospects := [(''alice@example.com'', alice)],
        resetrequests := [(''550000'', aliceToken 2000)],
        calls := [GetUser ''alice@example.com'', UpsertToken ''550000'',
                  SendMail ''alice@example.com'']\<rparr>))"
    by (simp add: newCalls_def)
  show ?thesis
    using notification_failure_not_visible [OF quiet_issue sent]
    by (simp add: quiet_issue reply_def)
qed

text \<open>
  C4, as the claim states it: every issuance call with a valid email, an existing user and
  fewer than two active tokens would create exactly one new record. When the upsert throws,
  the call is answered with status 500 and the table is as it was.
\<close>

theorem no_record_when_upsert_throws:
  "isValidEmail (normalizeStr (Some ''Alice@Example.com '')) \<and>
   map_of (prospects aliceWorld) (normalizeStr (Some ''Alice@Example.com '')) = Some alice \<and>
   length (activeOf 2000 (u_therapistId alice) aliceWorld) < 2 \<and>
   requestpasswordreset ((calmIssue 2000 (1 / 2))\<lparr>upsertThrows := True\<rparr>) aliceIssue aliceWorld =
     (reply 500 False ''Could not generate reset token.'',
      aliceWorld\<lparr>calls := [GetUser ''alice@example.com'', UpsertToken ''550000'']\<rparr>)"
  by (simp add: issue_defs example_defs normalize_alice_raw valid_alice newCode_half logCall_def)

text \<open>
  A minted code that is already a key of the table: the upsert merges into the stored
  record, and the table has as many records as before.
\<close>

lemma colliding_issuance_replaces_record:
  "requestpasswordreset (calmIssue 2000 (1 / 2)) aliceIssue
      (aliceWorld\<lparr>resetrequests := [(''550000'', aliceToken 0)]\<rparr>) =
     (reply 200 True ''If your account exists, a reset link has been sent to your email.'',
      aliceWorld\<lparr>
        resetrequests := [(''550000'', (aliceToken 2000)\<lparr>t_etag := 1\<rparr>)],
        outbox := [\<lparr>m_to = ''alice@example.com'', m_code = ''550000''\<rparr>],
        calls := [GetUser ''alice@example.com'', UpsertToken ''550000'',
                  SendMail ''alice@example.com'']\<rparr>)"
  by (simp add: issue_defs example_defs normalize_alice_raw valid_alice newCode_half logCall_def)

text \<open>
  C4, amended. An issuance call with a valid email, for a user that the lookup finds and who
  owns fewer than two active tokens, in which the upsert does not throw, is answered with
  status 200 and stores exactly one record: the one under the minted code. The code is the
  six-digit decimal string of a number from 100000 to 999999; the record is unused, created
  at the time of the call and expires 15 minutes later, and carries the email and the
  owner's identifier. It replaces whatever was stored under that code; no other code
  gains or changes a record. When the minted code was not in the table, it is the one code
  the table gains.
\<close>

theorem issuance_stores_the_minted_record:
  assumes "isValidEmail (normalizeStr (ib_email body))"
    and "\<not> userLookupThrows e"
    and "map_of (prospects w) (normalizeStr (ib_email body)) = Some u"
    and "length (activeOf (i_now e) (u_therapistId u) w) < 2"
    and "\<not> upsertThrows e"
    and "isRandom (i_random e)"
    and "requestpasswordreset e (Some body) w = (r, w')"
  shows "status r = 200 \<and> success r \<and>
         sixDigits (newCode (i_random e)) \<and>
         (\<exists>n. 100000 \<le> n \<and> n \<le> 999999 \<and> newCode (i_random e) = toString n) \<and>
         (\<exists>t. map_of (resetrequests w') (newCode (i_random e)) = Some t \<and>
              \<not> t_used t \<and> t_createdAt t = i_now e \<and>
              t_expiresAt t = t_createdAt t + 15 * 60 * 1000 \<and>
              t_email t = normalizeStr (ib_email body) \<and>
              t_therapistId t = u_therapistId u) \<and>
         (\<forall>k. k \<noteq> newCode (i_random e) \<longrightarrow>
              map_of (resetrequests w') k = map_of (resetrequests w) k \<or>
              map_of (resetrequests w') k = None) \<and>
         (newCode (i_random e) \<notin> dom (map_of (resetrequests w)) \<longrightarrow>
              dom (map_of (resetrequests w')) - dom (map_of (resetrequests w))
                = {newCode (i_random e)})"
proof -
  let ?email = "normalizeStr (ib_email body)"
  let ?w1 = "logCall (GetUser ?email) w"
  let ?code = "newCode (i_random e)"
  let ?w3 = "snd (upsertToken (upsertThrows e) ?code (newRecord e (u_therapistId u) ?email) ?w1)"
  have res: "r = resetSent" "w' = snd (sendMail (sendThrows e) ?email ?code ?w3)"
    using assms(1,2,3,5,7) by (simp_all add: requestpasswordreset_eq Let_def)
  have tok: "map_of (resetrequests w') =
      (map_of (resetrequests w))(?code \<mapsto> (newRecord e (u_therapistId u) ?email)
         \<lparr>t_etag := (case map_of (resetrequests w) ?code of
                       None \<Rightarrow> 0 | Some old \<Rightarrow> Suc (t_etag old))\<rparr>)"
    using assms(5) by (simp add: res upsert_tokens)
  have answer: "status r = 200 \<and> success r"
    by (simp add: res resetSent_def reply_def)
  have number: "\<exists>n. 100000 \<le> n \<and> n \<le> 999999 \<and> ?code = toString n"
    using drawn_number_range [OF assms(6)] unfolding newCode_def by blast
  have stored: "\<exists>t. map_of (resetrequests w') ?code = Some t \<and>
              \<not> t_used t \<and> t_createdAt t = i_now e \<and>
              t_expiresAt t = t_createdAt t + 15 * 60 * 1000 \<and>
              t_email t = ?email \<and> t_therapistId t = u_therapistId u"
    by (simp add: tok newRecord_def)
  have others: "\<forall>k. k \<noteq> ?code \<longrightarrow>
      map_of (resetrequests w') k = map_of (resetrequests w) k \<or>
      map_of (resetrequests w') k = None"
    by (simp add: tok)
  have fresh: "?code \<notin> dom (map_of (resetrequests w)) \<longrightarrow>
      dom (map_of (resetrequests w')) - dom (map_of (resetrequests w)) = {?code}"
    by (auto simp: tok)
  from answer newCode_sixDigits [OF assms(6)] number stored others fresh
  show ?thesis by blast
qed

theorem issuance_stores_the_minted_record_witness:
  "sixDigits (newCode (1/2)) \<and>
   (\<exists>t. map_of (resetrequests (snd (requestpasswordreset (calmIssue 2000 (1/2)) aliceIssue
             aliceWorld))) (newCode (1/2)) = Some t \<and>
        \<not> t_used t \<and> t_createdAt t = 2000 \<and> t_expiresAt t = 2000 + 15 * 60 * 1000) \<and>
   dom (map_of (resetrequests (snd (requestpasswordreset (calmIssue 2000 (1/2)) aliceIssue
             aliceWorld)))) - dom (map_of (resetrequests aliceWorld)) = {newCode (1/2)}"
proof -
  let ?e = "calmIssue 2000 (1/2)"
  let ?body = "\<lparr>ib_email = Some ''Alice@Example.com ''\<rparr>"
  have h1: "isValidEmail (normalizeStr (ib_email ?body))"
    by (simp add: normalize_alice_raw valid_alice)
  have h2: "\<not> userLookupThrows ?e" by simp
  have h3: "map_of (prospects aliceWorld) (normalizeStr (ib_email ?body)) = Some alice"
    by (simp add: normalize_alice_raw aliceWorld_def)
  have h4: "length (activeOf (i_now ?e) (u_therapistId alice) aliceWorld) < 2"
    by (simp add: activeOf_def ownedBy_def aliceWorld_def)
  have h5: "\<not> upsertThrows ?e" by simp
  have h6: "isRandom (i_random ?e)" by (simp add: isRandom_half)
  have h7: "requestpasswordreset ?e (Some ?body) aliceWorld =
      (fst (requestpasswordreset ?e aliceIssue aliceWorld),
       snd (requestpasswordreset ?e aliceIssue aliceWorld))"
    by (simp add: aliceIssue_def)
  have fresh: "newCode (i_random ?e) \<notin> dom (map_of (resetrequests aliceWorld))"
    by (simp add: aliceWorld_def)
  show ?thesis
    using issuance_stores_the_minted_record [OF h1 h2 h3 h4 h5 h6 h7] fresh
    by auto
qed

subsection \<open>The used flag\<close>

lemma usedOrGone_getToken [simp]: "usedOrGone c (snd (getToken b k w)) = usedOrGone c w"
  by (simp add: getToken_def usedOrGone_def)

lemma usedOrGone_deleteToken:
  "usedOrGone c w \<Longrightarrow> usedOrGone c (snd (deleteToken b k w))"
  by (auto simp: deleteToken_def usedOrGone_def delete_conv' split: option.splits)

lemma usedOrGone_updateTokenUsed:
  "usedOrGone c w \<Longrightarrow> usedOrGone c (snd (updateTokenUsed b m k w))"
  by (auto simp: updateTokenUsed_def usedOrGone_def update_conv' split: option.splits)

lemma usedOrGone_updateUserPassword [simp]:
  "usedOrGone c (snd (updateUserPassword b m k h w)) = usedOrGone c w"
  by (simp add: updateUserPassword_def usedOrGone_def split: option.splits)

lemma usedOrGone_logCall [simp]: "usedOrGone c (logCall x w) = usedOrGone c w"
  by (simp add: usedOrGone_def)

lemma usedOrGone_upsert:
  "k \<noteq> c \<Longrightarrow> usedOrGone c (snd (upsertToken b k t w)) = usedOrGone c w"
  by (simp add: upsertToken_def usedOrGone_def update_conv')

lemma usedOrGone_sendMail [simp]: "usedOrGone c (snd (sendMail b a x w)) = usedOrGone c w"
  by (simp add: sendMail_def usedOrGone_def)

lemma validateAndFetch_usedOrGone:
  "usedOrGone c w \<Longrightarrow> usedOrGone c (snd (validateAndFetch e req w))"
  by (auto simp: validateAndFetch_def Let_def case_prod_beta usedOrGone_deleteToken
        split: option.splits sum.splits)

text \<open>The rest of the redemption handler, path by path: the user lookup throws in every call.\<close>

lemma markAndCommit_eq:
  "markAndCommit e (em, c, pw, t) w =
     (if markUsedThrows e \<or> map_of (resetrequests w) c = None
        then reply 500 False ''Server error.''
      else reply 400 False ''Account not found.'',
      snd (updateTokenUsed (markUsedThrows e) AnyVersion c w))"
  by (auto simp: markAndCommit_def updateTokenUsed_def queryEntities_def etagMatches_def Let_def
        split: option.splits)

lemma markAndCommit_usedOrGone:
  "usedOrGone c w \<Longrightarrow> usedOrGone c (snd (markAndCommit e args w))"
  by (cases args) (simp add: markAndCommit_eq usedOrGone_updateTokenUsed)

lemma resetpassword_usedOrGone:
  "usedOrGone c w \<Longrightarrow> usedOrGone c (snd (resetpassword e req w))"
  by (auto simp: resetpassword_def case_prod_beta validateAndFetch_usedOrGone
        markAndCommit_usedOrGone split: sum.splits)

lemma requestpasswordreset_usedOrGone:
  assumes "usedOrGone c w" and "newCode (i_random e) \<noteq> c"
  shows "usedOrGone c (snd (requestpasswordreset e req w))"
proof (cases req)
  case None
  with assms show ?thesis by (simp add: requestpasswordreset_def)
next
  case (Some body)
  with assms show ?thesis
    by (simp add: requestpasswordreset_eq Let_def usedOrGone_upsert split: option.splits)
qed

text \<open>
  C1, as the claim states it: no issuance would set the used flag of a record back to false.
  The upsert of an issuance whose minted code is the code of a used record of another owner
  replaces that record, \<open>used\<close> included.
\<close>

theorem used_record_reset_by_colliding_issuance:
  "map_option t_used (map_of (resetrequests bobUsedWorld) ''550000'') = Some True \<and>
   newCode (1/2) = ''550000'' \<and>
   map_option t_used (map_of (resetrequests
       (snd (requestpasswordreset (calmIssue 2000 (1/2)) aliceIssue bobUsedWorld))) ''550000'')
     = Some False"
  by (simp add: issue_defs example_defs bobUsedWorld_def normalize_alice_raw
        valid_alice newCode_half logCall_def)

text \<open>
  C1, amended. A token record that is marked used is, after any redemption call and after
  any issuance call whose minted code differs from the record's code, either still marked
  used or deleted. An issuance call whose minted code is the record's code, with a valid
  email, for a user that the lookup finds and who owns fewer than two active tokens, and
  whose upsert does not throw, leaves under that code a record with \<open>used\<close> false.
\<close>

theorem used_flag_kept_by_other_calls:
  assumes "map_of (resetrequests w) c = Some t" and "t_used t"
  shows "usedOrGone c (snd (resetpassword re rreq w)) \<and>
         (newCode (i_random ie) \<noteq> c \<longrightarrow> usedOrGone c (snd (requestpasswordreset ie ireq w))) \<and>
         (newCode (i_random ie) = c \<and> isValidEmail (normalizeStr (ib_email body)) \<and>
          \<not> userLookupThrows ie \<and>
          map_of (prospects w) (normalizeStr (ib_email body)) = Some u \<and>
          length (activeOf (i_now ie) (u_therapistId u) w) < 2 \<and> \<not> upsertThrows ie \<longrightarrow>
            map_option t_used
              (map_of (resetrequests (snd (requestpasswordreset ie (Some body) w))) c)
              = Some False)"
proof -
  from assms have "usedOrGone c w" by (simp add: usedOrGone_def)
  then have kept: "usedOrGone c (snd (resetpassword re rreq w))"
    "newCode (i_random ie) \<noteq> c \<longrightarrow> usedOrGone c (snd (requestpasswordreset ie ireq w))"
    by (simp_all add: resetpassword_usedOrGone requestpasswordreset_usedOrGone)
  have "map_option t_used
          (map_of (resetrequests (snd (requestpasswordreset ie (Some body) w))) c) = Some False"
    if "newCode (i_random ie) = c" "isValidEmail (normalizeStr (ib_email body))"
      "\<not> userLookupThrows ie" "map_of (prospects w) (normalizeStr (ib_email body)) = Some u"
      "\<not> upsertThrows ie"
    using that by (simp add: requestpasswordreset_eq Let_def upsert_tokens newRecord_def)
  with kept show ?thesis by blast
qed

theorem used_flag_kept_by_other_calls_witness:
  "usedOrGone ''550000'' (snd (resetpassword (calmRedeem 1000)
      (Some (aliceBody\<lparr>rb_code := Some ''550000''\<rparr>)) bobUsedWorld)) \<and>
   usedOrGone ''550000'' (snd (requestpasswordreset (calmIssue 2000 0) aliceIssue bobUsedWorld)) \<and>
   map_option t_used (map_of (resetrequests
       (snd (requestpasswordreset (calmIssue 2000 (1/2)) aliceIssue bobUsedWorld))) ''550000'')
     = Some False"
proof -
  let ?body = "\<lparr>ib_email = Some ''Alice@Example.com ''\<rparr>"
  have rec: "map_of (resetrequests bobUsedWorld) ''550000'' = Some (bobToken\<lparr>t_used := True\<rparr>)"
    "t_used (bobToken\<lparr>t_used := True\<rparr>)"
    by (simp_all add: bobUsedWorld_def)
  have other: "newCode (i_random (calmIssue 2000 0)) \<noteq> ''550000''"
    by (simp add: newCode_zero)
  have same: "newCode (i_random (calmIssue 2000 (1/2))) = ''550000'' \<and>
      isValidEmail (normalizeStr (ib_email ?body)) \<and>
      \<not> userLookupThrows (calmIssue 2000 (1/2)) \<and>
      map_of (prospects bobUsedWorld) (normalizeStr (ib_email ?body)) = Some alice \<and>
      length (activeOf (i_now (calmIssue 2000 (1/2))) (u_therapistId alice) bobUsedWorld) < 2 \<and>
      \<not> upsertThrows (calmIssue 2000 (1/2))"
    by (simp add: newCode_half normalize_alice_raw valid_alice bobUsedWorld_def aliceWorld_def
          activeOf_def ownedBy_def bobToken_def alice_def)
  from used_flag_kept_by_other_calls [OF rec, of "calmRedeem 1000"
      "Some (aliceBody\<lparr>rb_code := Some ''550000''\<rparr>)" "calmIssue 2000 0" aliceIssue] other
  have first: "usedOrGone ''550000'' (snd (resetpassword (calmRedeem 1000)
        (Some (aliceBody\<lparr>rb_code := Some ''550000''\<rparr>)) bobUsedWorld))"
    "usedOrGone ''550000'' (snd (requestpasswordreset (calmIssue 2000 0) aliceIssue bobUsedWorld))"
    by blast+
  from used_flag_kept_by_other_calls [OF rec, of "calmRedeem 1000" None "calmIssue 2000 (1/2)"
      None ?body alice] same
  have "map_option t_used (map_of (resetrequests
       (snd (requestpasswordreset (calmIssue 2000 (1/2)) (Some ?body) bobUsedWorld))) ''550000'')
     = Some False"
    by blast
  with first show ?thesis by (simp add: aliceIssue_def)
qed

subsection \<open>Redemption: marking the code\<close>

lemma calmRedeem_simps [simp]:
  "r_now (calmRedeem t) = t" "bcryptHash (calmRedeem t) p = ''bcrypt:'' @ p"
  "\<not> tokenGetThrows (calmRedeem t)" "\<not> tokenDeleteThrows (calmRedeem t)"
  "\<not> markUsedThrows (calmRedeem t)" "\<not> passwordUpdateThrows (calmRedeem t)"
  by (simp_all add: calmRedeem_def)

lemma tokenWorld_simps [simp]:
  "prospects tokenWorld = [(''alice@example.com'', alice)]"
  "resetrequests tokenWorld = [(''123456'', aliceToken 0)]"
  "outbox tokenWorld = []" "calls tokenWorld = []"
  by (simp_all add: tokenWorld_def aliceWorld_def)

lemma aliceToken_simps [simp]:
  "t_therapistId (aliceToken t) = ''T1''" "t_email (aliceToken t) = ''alice@example.com''"
  "t_createdAt (aliceToken t) = t" "t_expiresAt (aliceToken t) = t + 900000"
  "\<not> t_used (aliceToken t)" "t_etag (aliceToken t) = 0"
  by (simp_all add: aliceToken_def)




lemma updateTokenUsed_prospects [simp]:
  "prospects (snd (updateTokenUsed b m c w)) = prospects w"
  by (simp add: updateTokenUsed_def split: option.splits)



lemma used_code_refused:
  assumes "usedOrGone c w" and "rb_code b = Some c"
  shows "status (fst (resetpassword e (Some b) w)) = 400"
  using assms
  by (auto simp: resetpassword_def validateAndFetch_def getToken_def usedOrGone_def reply_def
        Let_def split: option.splits)

lemma serve_usedOrGone:
  "usedOrGone c w \<Longrightarrow> \<not> mints c a \<Longrightarrow> usedOrGone c (snd (serve a w))"
  by (cases a) (simp_all add: resetpassword_usedOrGone requestpasswordreset_usedOrGone)

lemma serveAll_usedOrGone:
  "usedOrGone c w \<Longrightarrow> \<not> list_ex (mints c) as \<Longrightarrow> usedOrGone c (serveAll as w)"
  by (induction as arbitrary: w) (simp_all add: serve_usedOrGone)


text \<open>
  The record alone already bars the code: as long as no issuance mints the same code again,
  every redemption of a code whose record is used or gone is answered with status 400.
\<close>

lemma burnt_code_refused_until_reminted:
  assumes "usedOrGone c w" and "\<not> list_ex (mints c) later" and "rb_code b = Some c"
  shows "status (fst (resetpassword e (Some b) (serveAll later w))) = 400"
  using assms by (intro used_code_refused serveAll_usedOrGone)



subsection \<open>Redemption: two attempts with the same code\<close>








end
